theory Spec2Isabelle
  imports Main "HOL-Library.Word"
begin

section \<open>The lock-free 256-byte FIFO of \<^verbatim>\<open>util/no_os_lf256fifo.c\<close>\<close>

subsection \<open>Data model\<close>

text \<open>
  \<^verbatim>\<open>struct lf256fifo { uint8_t *data; uint8_t ffilled; uint8_t fempty; }\<close>.
  The buffer \<^verbatim>\<open>data\<close> is a block of exactly 256 bytes that is only ever indexed by a
  \<^verbatim>\<open>uint8_t\<close>, so it is a total function from 8-bit indices to bytes: every index is in
  range by its type. \<^verbatim>\<open>ffilled\<close> is the consumer index (the spec's head), \<^verbatim>\<open>fempty\<close> the
  producer index (the spec's tail).
\<close>

record lf256fifo =
  data :: "8 word \<Rightarrow> 8 word"
  ffilled :: "8 word"
  fempty :: "8 word"

text \<open>The two \<^verbatim>\<open>errno\<close> values that \<^verbatim>\<open>lf256fifo_init\<close> returns negated.\<close>

datatype error = EINVAL | ENOMEM

subsection \<open>Operations\<close>

text \<open>
  \<^verbatim>\<open>calloc\<close> hands out zeroed memory: a fresh control structure has both indices 0 and a
  fresh buffer holds 256 zero bytes.
\<close>

definition lf256fifo_zeroed :: lf256fifo where
  "lf256fifo_zeroed = \<lparr>data = (\<lambda>_. 0), ffilled = 0, fempty = 0\<rparr>"

text \<open>
  \<^verbatim>\<open>lf256fifo_init(struct lf256fifo **fifo)\<close>. The inputs of the model are what the C
  function observes: whether the out-pointer \<^verbatim>\<open>fifo\<close> is non-NULL, whether the \<^verbatim>\<open>calloc\<close> of
  the control structure returns memory, and whether the \<^verbatim>\<open>calloc\<close> of the 256-byte buffer
  does. The checks are made in the order of the source, so the second allocation is only
  attempted after the first has succeeded, and none is attempted for a NULL out-pointer.
  \<open>Inl e\<close> is the return value \<^verbatim>\<open>-e\<close>; \<open>Inr q\<close> is the return value 0 with \<^verbatim>\<open>*fifo\<close> set to
  the new queue \<open>q\<close>.
\<close>

definition lf256fifo_init :: "bool \<Rightarrow> bool \<Rightarrow> bool \<Rightarrow> error + lf256fifo" where
  "lf256fifo_init fifo_given struct_alloc_ok data_alloc_ok =
     (if \<not> fifo_given then Inl EINVAL
      else if \<not> struct_alloc_ok then Inl ENOMEM
      else if \<not> data_alloc_ok then Inl ENOMEM
      else Inr lf256fifo_zeroed)"

text \<open>
  \<^verbatim>\<open>return (fifo->fempty + 1) == fifo->ffilled;\<close>
  Both operands of \<^verbatim>\<open>+\<close> and of \<^verbatim>\<open>==\<close> undergo the integer promotions of C: the
  \<^verbatim>\<open>uint8_t\<close> fields are converted to \<^verbatim>\<open>int\<close>, the sum is formed in \<^verbatim>\<open>int\<close> and is compared,
  still as an \<^verbatim>\<open>int\<close>, with the promoted \<^verbatim>\<open>ffilled\<close>. Nothing converts the sum back to
  eight bits, so \<open>uint\<close> reads the fields and the arithmetic is that of \<open>int\<close>.
\<close>

definition lf256fifo_is_full :: "lf256fifo \<Rightarrow> bool" where
  "lf256fifo_is_full fifo \<longleftrightarrow> uint (fempty fifo) + 1 = uint (ffilled fifo)"

text \<open>\<^verbatim>\<open>return fifo->fempty == fifo->ffilled;\<close> (compared after promotion to \<^verbatim>\<open>int\<close>).\<close>

definition lf256fifo_is_empty :: "lf256fifo \<Rightarrow> bool" where
  "lf256fifo_is_empty fifo \<longleftrightarrow> uint (fempty fifo) = uint (ffilled fifo)"

text \<open>
  \<^verbatim>\<open>int lf256fifo_read(struct lf256fifo *fifo, uint8_t *c)\<close>. The second argument of the
  model is the byte stored at the caller's location \<^verbatim>\<open>c\<close> before the call; the result is the
  return value, the queue after the call and the byte stored at \<^verbatim>\<open>c\<close> after the call.
  The structure is opaque to callers (it is declared in the \<^verbatim>\<open>.c\<close> file), so \<^verbatim>\<open>c\<close> does not
  alias the queue. \<^verbatim>\<open>fifo->ffilled++\<close> stores into a \<^verbatim>\<open>uint8_t\<close> and wraps from 255 to 0.
\<close>

definition lf256fifo_read :: "lf256fifo \<Rightarrow> 8 word \<Rightarrow> int \<times> lf256fifo \<times> 8 word" where
  "lf256fifo_read fifo c =
     (if lf256fifo_is_empty fifo then (- 1, fifo, c)
      else (0, fifo\<lparr>ffilled := ffilled fifo + 1\<rparr>, data fifo (ffilled fifo)))"

text \<open>
  \<^verbatim>\<open>int lf256fifo_write(struct lf256fifo *fifo, uint8_t c)\<close>: the return value and the queue
  after the call. \<^verbatim>\<open>fifo->fempty++\<close> wraps from 255 to 0.
\<close>

definition lf256fifo_write :: "lf256fifo \<Rightarrow> 8 word \<Rightarrow> int \<times> lf256fifo" where
  "lf256fifo_write fifo c =
     (if lf256fifo_is_full fifo then (- 1, fifo)
      else (0, fifo\<lparr>data := (data fifo)(fempty fifo := c), fempty := fempty fifo + 1\<rparr>))"

text \<open>\<^verbatim>\<open>fifo->ffilled = fifo->fempty;\<close>\<close>

definition lf256fifo_flush :: "lf256fifo \<Rightarrow> lf256fifo" where
  "lf256fifo_flush fifo = fifo\<lparr>ffilled := fempty fifo\<rparr>"

subsection \<open>Sequences of calls\<close>

text \<open>
  Consecutive \<^verbatim>\<open>lf256fifo_write\<close> calls, one per byte of the list, whatever each returns:
  the return values in call order and the queue after the last call.
\<close>

fun lf256fifo_writes :: "lf256fifo \<Rightarrow> 8 word list \<Rightarrow> int list \<times> lf256fifo" where
  "lf256fifo_writes fifo [] = ([], fifo)"
| "lf256fifo_writes fifo (b # bs) =
     (case lf256fifo_write fifo b of (r, fifo') \<Rightarrow>
        (case lf256fifo_writes fifo' bs of (rs, fifo'') \<Rightarrow> (r # rs, fifo'')))"

text \<open>
  \<open>n\<close> consecutive \<^verbatim>\<open>lf256fifo_read\<close> calls into one caller variable that holds \<open>c\<close> before
  the first call: for each call its return value and the byte in the variable after it,
  and the queue after the last call.
\<close>

fun lf256fifo_reads :: "nat \<Rightarrow> lf256fifo \<Rightarrow> 8 word \<Rightarrow> (int \<times> 8 word) list \<times> lf256fifo" where
  "lf256fifo_reads 0 fifo c = ([], fifo)"
| "lf256fifo_reads (Suc n) fifo c =
     (case lf256fifo_read fifo c of (r, fifo', c') \<Rightarrow>
        (case lf256fifo_reads n fifo' c' of (rs, fifo'') \<Rightarrow> ((r, c') # rs, fifo'')))"

text \<open>
  The bytes written and not yet read, oldest first: the buffer cells from \<^verbatim>\<open>ffilled\<close> up to,
  not including, \<^verbatim>\<open>fempty\<close>, the indices taken modulo 256.
\<close>

definition pending :: "lf256fifo \<Rightarrow> 8 word list" where
  "pending fifo =
     map (\<lambda>i. data fifo (ffilled fifo + of_nat i)) [0..<unat (fempty fifo - ffilled fifo)]"

section \<open>Basic facts\<close>

lemma uint_succ_u8: "uint (x + 1 :: 8 word) = (uint x + 1) mod 256"
  by (simp add: uint_word_ariths)

lemma uint_u8_bounds: "0 \<le> uint (x :: 8 word) \<and> uint x < 256"
  using uint_lt2p [of x] by simp

lemma uint_ne_255: "(x :: 8 word) \<noteq> 255 \<Longrightarrow> uint x \<noteq> 255"
  by (auto simp: word_uint_eq_iff)

text \<open>
  What the promoted comparison of \<^verbatim>\<open>lf256fifo_is_full\<close> decides: the sum is 256 when
  \<^verbatim>\<open>fempty\<close> is 255, and no \<^verbatim>\<open>uint8_t\<close> equals 256.
\<close>

lemma promoted_succ_eq:
  "(uint (t :: 8 word) + 1 = uint (h :: 8 word)) \<longleftrightarrow> t \<noteq> 255 \<and> t + 1 = h"
proof
  assume u: "uint t + 1 = uint h"
  have "uint h < 256" using uint_u8_bounds [of h] by simp
  with u have lt: "uint t < 255" by simp
  then have ne: "t \<noteq> 255" by auto
  have "uint (t + 1) = uint t + 1"
    using lt uint_u8_bounds [of t] by (simp add: uint_succ_u8)
  with u have "t + 1 = h" by (simp add: word_uint_eq_iff)
  with ne show "t \<noteq> 255 \<and> t + 1 = h" by simp
next
  assume a: "t \<noteq> 255 \<and> t + 1 = h"
  then have "uint t \<noteq> 255" by (simp add: uint_ne_255)
  then have lt: "uint t < 255" using uint_u8_bounds [of t] by simp
  have "uint (t + 1) = uint t + 1"
    using lt uint_u8_bounds [of t] by (simp add: uint_succ_u8)
  with a show "uint t + 1 = uint h" by auto
qed

lemma is_full_iff: "lf256fifo_is_full s \<longleftrightarrow> fempty s \<noteq> 255 \<and> fempty s + 1 = ffilled s"
  by (simp add: lf256fifo_is_full_def promoted_succ_eq)

lemma is_empty_iff: "lf256fifo_is_empty s \<longleftrightarrow> fempty s = ffilled s"
  by (simp add: lf256fifo_is_empty_def word_uint_eq_iff)

section \<open>The pending bytes across calls\<close>

lemma unat_m1: "unat (- 1 :: 8 word) = 255"
proof -
  have "(- 1 :: 8 word) = 255" by simp
  then show ?thesis by (simp only: unsigned_numeral) simp
qed

lemma not_full_if_room:
  assumes "unat (fempty s - ffilled s) < 255"
  shows "\<not> lf256fifo_is_full s"
proof
  assume "lf256fifo_is_full s"
  then have "fempty s + 1 = ffilled s" by (simp add: is_full_iff)
  then have "fempty s - ffilled s = - 1" by (metis add_diff_cancel_left' minus_diff_eq)
  then have "unat (fempty s - ffilled s) = 255" by (simp add: unat_m1)
  with assms show False by simp
qed

lemma unat_succ_room:
  assumes "unat (d :: 8 word) < 255"
  shows "unat (d + 1) = Suc (unat d)"
  using assms by (simp add: unat_word_ariths)

lemma of_nat_unat_lt_neq:
  assumes "i < unat (d :: 8 word)"
  shows "(of_nat i :: 8 word) \<noteq> d"
proof
  assume "(of_nat i :: 8 word) = d"
  then have "unat d = i mod 256" by (auto simp: unat_of_nat)
  with assms show False using mod_less_eq_dividend [of i 256] by simp
qed

lemma pending_write:
  assumes room: "unat (fempty s - ffilled s) < 255"
  shows "lf256fifo_write s c =
           (0, s\<lparr>data := (data s)(fempty s := c), fempty := fempty s + 1\<rparr>)"
    and "pending (snd (lf256fifo_write s c)) = pending s @ [c]"
proof -
  show w: "lf256fifo_write s c =
           (0, s\<lparr>data := (data s)(fempty s := c), fempty := fempty s + 1\<rparr>)"
    using not_full_if_room [OF room] by (simp add: lf256fifo_write_def)
  let ?d = "fempty s - ffilled s"
  have d1: "fempty s + 1 - ffilled s = ?d + 1" by simp
  have n: "unat (?d + 1) = Suc (unat ?d)" by (rule unat_succ_room [OF room])
  have old: "((data s)(fempty s := c)) (ffilled s + of_nat i) = data s (ffilled s + of_nat i)"
    if "i < unat ?d" for i
  proof -
    have "(of_nat i :: 8 word) \<noteq> ?d" using that by (rule of_nat_unat_lt_neq)
    then have "ffilled s + of_nat i \<noteq> fempty s" by (metis add_diff_cancel_left')
    then show ?thesis by simp
  qed
  have new: "ffilled s + of_nat (unat ?d) = fempty s" by simp
  have olds: "map (\<lambda>i. ((data s)(fempty s := c)) (ffilled s + of_nat i)) [0..<unat ?d] =
              map (\<lambda>i. data s (ffilled s + of_nat i)) [0..<unat ?d]"
    by (rule map_cong) (simp_all only: old set_upt atLeastLessThan_iff)
  have "pending (snd (lf256fifo_write s c)) =
          map (\<lambda>i. ((data s)(fempty s := c)) (ffilled s + of_nat i)) [0..<Suc (unat ?d)]"
    by (simp add: w pending_def d1 n)
  also have "\<dots> = map (\<lambda>i. data s (ffilled s + of_nat i)) [0..<unat ?d] @ [c]"
    using olds new by simp
  finally show "pending (snd (lf256fifo_write s c)) = pending s @ [c]"
    by (simp add: pending_def)
qed


lemma length_pending: "length (pending s) = unat (fempty s - ffilled s)"
  by (simp add: pending_def)

lemma writes_pending:
  assumes "length (pending s) + length bs \<le> 255"
  shows "fst (lf256fifo_writes s bs) = replicate (length bs) 0 \<and>
         pending (snd (lf256fifo_writes s bs)) = pending s @ bs \<and>
         ffilled (snd (lf256fifo_writes s bs)) = ffilled s \<and>
         fempty (snd (lf256fifo_writes s bs)) = fempty s + of_nat (length bs)"
  using assms
proof (induction bs arbitrary: s)
  case Nil
  show ?case by simp
next
  case (Cons b bs)
  let ?s' = "s\<lparr>data := (data s)(fempty s := b), fempty := fempty s + 1\<rparr>"
  from Cons.prems have room: "unat (fempty s - ffilled s) < 255"
    by (simp add: length_pending)
  have w: "lf256fifo_write s b = (0, ?s')"
    by (rule pending_write(1) [OF room])
  have p: "pending ?s' = pending s @ [b]"
    using pending_write(2) [OF room, of b] by (simp add: w)
  from Cons.prems p have "length (pending ?s') + length bs \<le> 255" by simp
  from Cons.IH [OF this] show ?case
    by (simp add: w p case_prod_unfold add.assoc)
qed

lemma pending_read:
  assumes "pending s = x # xs"
  shows "lf256fifo_read s c = (0, s\<lparr>ffilled := ffilled s + 1\<rparr>, x)"
    and "pending (s\<lparr>ffilled := ffilled s + 1\<rparr>) = xs"
proof -
  let ?d = "fempty s - ffilled s"
  from assms have pos: "0 < unat ?d"
    using length_pending [of s] by simp
  then have "?d \<noteq> 0" by auto
  then have ne: "fempty s \<noteq> ffilled s" by simp
  from assms pos have x: "x = data s (ffilled s)"
    by (simp add: pending_def upt_conv_Cons)
  show "lf256fifo_read s c = (0, s\<lparr>ffilled := ffilled s + 1\<rparr>, x)"
    using ne by (simp add: lf256fifo_read_def is_empty_iff x)
  have d1: "fempty s - (ffilled s + 1) = ?d - 1" by simp
  have n: "unat (?d - 1) = unat ?d - 1"
    using unat_minus_one [OF \<open>?d \<noteq> 0\<close>] by simp
  have "xs = tl (pending s)" using assms by simp
  also have "\<dots> = map (\<lambda>i. data s (ffilled s + of_nat i)) (tl [0..<unat ?d])"
    by (simp only: pending_def map_tl)
  also have "tl [0..<unat ?d] = map Suc [0..<unat ?d - 1]"
    using pos by (simp add: map_Suc_upt upt_conv_Cons)
  also have "map (\<lambda>i. data s (ffilled s + of_nat i)) (map Suc [0..<unat ?d - 1]) =
             pending (s\<lparr>ffilled := ffilled s + 1\<rparr>)"
    by (simp add: pending_def d1 n add.assoc)
  finally show "pending (s\<lparr>ffilled := ffilled s + 1\<rparr>) = xs" by simp
qed

lemma reads_pending:
  assumes "pending s = xs"
  shows "fst (lf256fifo_reads (length xs) s c) = map (\<lambda>b. (0, b)) xs \<and>
         pending (snd (lf256fifo_reads (length xs) s c)) = []"
  using assms
proof (induction xs arbitrary: s c)
  case Nil
  then show ?case by simp
next
  case (Cons x xs)
  let ?s' = "s\<lparr>ffilled := ffilled s + 1\<rparr>"
  have r: "lf256fifo_read s c = (0, ?s', x)"
    by (rule pending_read(1) [OF Cons.prems])
  have p: "pending ?s' = xs"
    by (rule pending_read(2) [OF Cons.prems])
  from Cons.IH [OF p, of x] show ?case
    by (simp add: r case_prod_unfold)
qed

lemma pending_empty: "lf256fifo_is_empty s \<Longrightarrow> pending s = []"
  by (simp add: is_empty_iff pending_def)

section \<open>Fullness test\<close>

text \<open>
  Below index 255 the test of \<^verbatim>\<open>lf256fifo_is_full\<close> is the comparison modulo 256; at
  \<^verbatim>\<open>fempty\<close> = 255 it answers false whatever \<^verbatim>\<open>ffilled\<close> is.
\<close>

lemma is_full_below_255:
  assumes "fempty s \<noteq> 255"
  shows "lf256fifo_is_full s \<longleftrightarrow> (unat (fempty s) + 1) mod 256 = unat (ffilled s)"
proof -
  have "(unat (fempty s) + 1) mod 256 = unat (fempty s + 1)"
    by (simp add: unat_word_ariths)
  moreover have "unat (fempty s + 1) = unat (ffilled s) \<longleftrightarrow> fempty s + 1 = ffilled s"
    by (rule word_unat_eq_iff [symmetric])
  ultimately show ?thesis
    using assms by (simp only: is_full_iff) simp
qed

lemma is_full_never_at_255: "fempty s = 255 \<Longrightarrow> \<not> lf256fifo_is_full s"
  by (simp add: is_full_iff)

text \<open>
  Claim C1. The claim: \<^verbatim>\<open>is_full\<close> is true exactly when (tail + 1) mod 256 = head, in
  particular in the wraparound state tail = 255, head = 0. The code evaluated in that
  state: tail + 1 is 0 modulo 256 and equals head, yet \<^verbatim>\<open>lf256fifo_is_full\<close> answers
  false, because the promoted sum is 256.
\<close>

theorem is_full_false_at_wraparound:
  "fempty (lf256fifo_zeroed\<lparr>fempty := 255\<rparr>) = 255 \<and>
   ffilled (lf256fifo_zeroed\<lparr>fempty := 255\<rparr>) = 0 \<and>
   (unat (fempty (lf256fifo_zeroed\<lparr>fempty := 255\<rparr>)) + 1) mod 256 =
     unat (ffilled (lf256fifo_zeroed\<lparr>fempty := 255\<rparr>)) \<and>
   \<not> lf256fifo_is_full (lf256fifo_zeroed\<lparr>fempty := 255\<rparr>)"
  by (simp add: lf256fifo_is_full_def lf256fifo_zeroed_def)

section \<open>Reading and writing one byte\<close>

text \<open>
  Claim C4. In every state with head = tail, \<^verbatim>\<open>lf256fifo_read\<close> returns -1 (Empty) and
  leaves the queue as it was, buffer and both indices. In every other state it returns 0,
  delivers the byte \<^verbatim>\<open>data[ffilled]\<close> and moves \<^verbatim>\<open>ffilled\<close> on by one modulo 256, changing
  nothing else.
\<close>

theorem read_empty_or_advance:
  "(ffilled s = fempty s \<longrightarrow>
      fst (lf256fifo_read s c) = - 1 \<and> fst (snd (lf256fifo_read s c)) = s) \<and>
   (ffilled s \<noteq> fempty s \<longrightarrow>
      lf256fifo_read s c = (0, s\<lparr>ffilled := ffilled s + 1\<rparr>, data s (ffilled s)) \<and>
      unat (ffilled (fst (snd (lf256fifo_read s c)))) = (unat (ffilled s) + 1) mod 256)"
proof (cases "ffilled s = fempty s")
  case True
  then show ?thesis by (simp add: lf256fifo_read_def is_empty_iff)
next
  case False
  then have "\<not> lf256fifo_is_empty s" by (auto simp: is_empty_iff)
  with False show ?thesis by (simp add: lf256fifo_read_def unat_word_ariths)
qed

theorem read_empty_or_advance_witness:
  "ffilled \<lparr>data = (\<lambda>_. 7), ffilled = 9, fempty = 9\<rparr> =
     fempty \<lparr>data = (\<lambda>_. 7), ffilled = 9, fempty = 9\<rparr> \<and>
   fst (lf256fifo_read \<lparr>data = (\<lambda>_. 7), ffilled = 9, fempty = 9\<rparr> 3) = - 1 \<and>
   fst (snd (lf256fifo_read \<lparr>data = (\<lambda>_. 7), ffilled = 9, fempty = 9\<rparr> 3)) =
     \<lparr>data = (\<lambda>_. 7), ffilled = 9, fempty = 9\<rparr> \<and>
   ffilled \<lparr>data = (\<lambda>_. 7), ffilled = 255, fempty = 2\<rparr> \<noteq>
     fempty \<lparr>data = (\<lambda>_. 7), ffilled = 255, fempty = 2\<rparr> \<and>
   lf256fifo_read \<lparr>data = (\<lambda>_. 7), ffilled = 255, fempty = 2\<rparr> 3 =
     (0, \<lparr>data = (\<lambda>_. 7), ffilled = 0, fempty = 2\<rparr>, 7) \<and>
   unat (ffilled (fst (snd (lf256fifo_read \<lparr>data = (\<lambda>_. 7), ffilled = 255, fempty = 2\<rparr> 3)))) = 0"
  using read_empty_or_advance [of "\<lparr>data = (\<lambda>_. 7), ffilled = 9, fempty = 9\<rparr>" 3]
    read_empty_or_advance [of "\<lparr>data = (\<lambda>_. 7), ffilled = 255, fempty = 2\<rparr>" 3]
  by simp

text \<open>
  Claim C5. The claim: in every state with (tail + 1) mod 256 = head a write returns -1
  (Full) and changes nothing. The code evaluated in the state tail = 255, head = 0, which
  is full in that sense: the write returns 0, stores the byte in cell 255 and wraps
  \<^verbatim>\<open>fempty\<close> to 0, after which the queue tests as empty.
\<close>

theorem write_accepted_when_full_at_wraparound:
  "(unat (fempty (lf256fifo_zeroed\<lparr>fempty := 255\<rparr>)) + 1) mod 256 =
     unat (ffilled (lf256fifo_zeroed\<lparr>fempty := 255\<rparr>)) \<and>
   lf256fifo_write (lf256fifo_zeroed\<lparr>fempty := 255\<rparr>) 0x5A =
     (0, lf256fifo_zeroed\<lparr>data := (data lf256fifo_zeroed)(255 := 0x5A), fempty := 0\<rparr>) \<and>
   lf256fifo_is_empty (snd (lf256fifo_write (lf256fifo_zeroed\<lparr>fempty := 255\<rparr>) 0x5A))"
  by (simp add: lf256fifo_write_def lf256fifo_is_full_def lf256fifo_is_empty_def
      lf256fifo_zeroed_def)

text \<open>
  Claim C10. When \<^verbatim>\<open>lf256fifo_read\<close> is called on an empty queue it returns -1 and the
  byte at the caller's location \<^verbatim>\<open>c\<close> is the one that was there before the call; the
  location is written only when the read succeeds, with \<^verbatim>\<open>data[ffilled]\<close>.
\<close>

theorem read_empty_keeps_c:
  "(lf256fifo_is_empty s \<longrightarrow>
      fst (lf256fifo_read s c) = - 1 \<and> snd (snd (lf256fifo_read s c)) = c) \<and>
   (\<not> lf256fifo_is_empty s \<longrightarrow>
      fst (lf256fifo_read s c) = 0 \<and> snd (snd (lf256fifo_read s c)) = data s (ffilled s))"
  by (simp add: lf256fifo_read_def)

theorem read_empty_keeps_c_witness:
  "lf256fifo_is_empty lf256fifo_zeroed \<and>
   fst (lf256fifo_read lf256fifo_zeroed 0xC3) = - 1 \<and>
   snd (snd (lf256fifo_read lf256fifo_zeroed 0xC3)) = 0xC3 \<and>
   \<not> lf256fifo_is_empty \<lparr>data = (\<lambda>_. 7), ffilled = 4, fempty = 5\<rparr> \<and>
   fst (lf256fifo_read \<lparr>data = (\<lambda>_. 7), ffilled = 4, fempty = 5\<rparr> 0xC3) = 0 \<and>
   snd (snd (lf256fifo_read \<lparr>data = (\<lambda>_. 7), ffilled = 4, fempty = 5\<rparr> 0xC3)) = 7"
  using read_empty_keeps_c [of lf256fifo_zeroed "0xC3"]
    read_empty_keeps_c [of "\<lparr>data = (\<lambda>_. 7), ffilled = 4, fempty = 5\<rparr>" "0xC3"]
  by (simp add: lf256fifo_is_empty_def lf256fifo_zeroed_def)

text \<open>
  Claim C8. \<^verbatim>\<open>lf256fifo_write\<close> never changes the consumer index \<^verbatim>\<open>ffilled\<close> and leaves
  every buffer cell other than the one at the old \<^verbatim>\<open>fempty\<close> as it was;
  \<^verbatim>\<open>lf256fifo_read\<close> never changes the producer index \<^verbatim>\<open>fempty\<close> nor any buffer cell.
  Both hold whether the call succeeds or not.
\<close>

theorem single_writer_frame:
  "ffilled (snd (lf256fifo_write s b)) = ffilled s \<and>
   (i \<noteq> fempty s \<longrightarrow> data (snd (lf256fifo_write s b)) i = data s i) \<and>
   fempty (fst (snd (lf256fifo_read s c))) = fempty s \<and>
   data (fst (snd (lf256fifo_read s c))) = data s"
  by (simp add: lf256fifo_write_def lf256fifo_read_def)

theorem single_writer_frame_witness:
  "ffilled (snd (lf256fifo_write \<lparr>data = (\<lambda>_. 7), ffilled = 4, fempty = 6\<rparr> 1)) = 4 \<and>
   (5 :: 8 word) \<noteq> fempty \<lparr>data = (\<lambda>_. 7), ffilled = 4, fempty = 6\<rparr> \<and>
   data (snd (lf256fifo_write \<lparr>data = (\<lambda>_. 7), ffilled = 4, fempty = 6\<rparr> 1)) 5 = 7 \<and>
   fempty (fst (snd (lf256fifo_read \<lparr>data = (\<lambda>_. 7), ffilled = 4, fempty = 6\<rparr> 2))) = 6 \<and>
   data (fst (snd (lf256fifo_read \<lparr>data = (\<lambda>_. 7), ffilled = 4, fempty = 6\<rparr> 2))) = (\<lambda>_. 7)"
  using single_writer_frame [of "\<lparr>data = (\<lambda>_. 7), ffilled = 4, fempty = 6\<rparr>" 1 5 2]
  by simp

section \<open>Initialisation\<close>

text \<open>
  Claim C7. \<^verbatim>\<open>lf256fifo_init\<close> returns \<^verbatim>\<open>-EINVAL\<close> exactly when the out-pointer is NULL;
  it returns \<^verbatim>\<open>-ENOMEM\<close> exactly when an allocation it attempts fails, that of the control
  structure or, once that one has succeeded, that of the buffer; otherwise it succeeds and
  hands out a queue with \<^verbatim>\<open>ffilled\<close> = \<^verbatim>\<open>fempty\<close> = 0 that tests as empty.
\<close>

theorem init_outcomes:
  "(lf256fifo_init fifo_given struct_ok data_ok = Inl EINVAL \<longleftrightarrow> \<not> fifo_given) \<and>
   (lf256fifo_init fifo_given struct_ok data_ok = Inl ENOMEM \<longleftrightarrow>
      fifo_given \<and> (\<not> struct_ok \<or> struct_ok \<and> \<not> data_ok)) \<and>
   (fifo_given \<and> struct_ok \<and> data_ok \<longrightarrow>
      (\<exists>q. lf256fifo_init fifo_given struct_ok data_ok = Inr q \<and>
           ffilled q = 0 \<and> fempty q = 0 \<and> lf256fifo_is_empty q))"
  by (auto simp: lf256fifo_init_def lf256fifo_zeroed_def lf256fifo_is_empty_def)

theorem init_outcomes_witness:
  "lf256fifo_init False True True = Inl EINVAL \<and>
   lf256fifo_init True False True = Inl ENOMEM \<and>
   lf256fifo_init True True False = Inl ENOMEM \<and>
   (\<exists>q. lf256fifo_init True True True = Inr q \<and>
        ffilled q = 0 \<and> fempty q = 0 \<and> lf256fifo_is_empty q)"
  using init_outcomes [of False True True] init_outcomes [of True False True]
    init_outcomes [of True True False] init_outcomes [of True True True]
  by simp

section \<open>Sequences of writes and reads\<close>

text \<open>
  Writes into a queue that has room for them are all accepted, and the reads that follow
  deliver first the bytes that were already pending and then the written ones, in order.
\<close>

lemma fifo_order_after_pending:
  assumes "length (pending s) + length bs \<le> 255"
  shows "fst (lf256fifo_writes s bs) = replicate (length bs) 0 \<and>
         fst (lf256fifo_reads (length (pending s) + length bs) (snd (lf256fifo_writes s bs)) c) =
           map (\<lambda>b. (0, b)) (pending s @ bs)"
proof -
  from writes_pending [OF assms]
  have w: "fst (lf256fifo_writes s bs) = replicate (length bs) 0"
    and p: "pending (snd (lf256fifo_writes s bs)) = pending s @ bs" by simp_all
  from reads_pending [OF p, of c] w show ?thesis by simp
qed

text \<open>
  Claim C2. The claim: on a fresh queue 255 writes succeed, \<^verbatim>\<open>is_full\<close> is true after them
  and the 256th write returns Full and changes nothing. The code evaluated on the fresh
  queue of \<^verbatim>\<open>lf256fifo_init\<close>: the 255 writes return 0 and leave \<^verbatim>\<open>ffilled\<close> = 0,
  \<^verbatim>\<open>fempty\<close> = 255; there \<^verbatim>\<open>lf256fifo_is_full\<close> is false, the 256th write returns 0,
  stores its byte in cell 255 and wraps \<^verbatim>\<open>fempty\<close> to 0, and the queue tests as empty.
\<close>

theorem fill_to_capacity_overrun:
  "fst (lf256fifo_writes lf256fifo_zeroed (replicate 255 0x41)) = replicate 255 0 \<and>
   ffilled (snd (lf256fifo_writes lf256fifo_zeroed (replicate 255 0x41))) = 0 \<and>
   fempty (snd (lf256fifo_writes lf256fifo_zeroed (replicate 255 0x41))) = 255 \<and>
   \<not> lf256fifo_is_full (snd (lf256fifo_writes lf256fifo_zeroed (replicate 255 0x41))) \<and>
   fst (lf256fifo_write (snd (lf256fifo_writes lf256fifo_zeroed (replicate 255 0x41))) 0x42) = 0 \<and>
   fempty (snd (lf256fifo_write
     (snd (lf256fifo_writes lf256fifo_zeroed (replicate 255 0x41))) 0x42)) = 0 \<and>
   data (snd (lf256fifo_write
     (snd (lf256fifo_writes lf256fifo_zeroed (replicate 255 0x41))) 0x42)) 255 = 0x42 \<and>
   lf256fifo_is_empty (snd (lf256fifo_write
     (snd (lf256fifo_writes lf256fifo_zeroed (replicate 255 0x41))) 0x42))"
proof -
  let ?s = "snd (lf256fifo_writes lf256fifo_zeroed (replicate 255 0x41))"
  have "pending lf256fifo_zeroed = []"
    by (simp add: pending_def lf256fifo_zeroed_def)
  then have "length (pending lf256fifo_zeroed) + length (replicate 255 (0x41 :: 8 word)) \<le> 255"
    by simp
  from writes_pending [OF this]
  have r: "fst (lf256fifo_writes lf256fifo_zeroed (replicate 255 0x41)) = replicate 255 0"
    and h: "ffilled ?s = 0" and t: "fempty ?s = 255"
    by (simp_all add: lf256fifo_zeroed_def)
  have nf: "\<not> lf256fifo_is_full ?s"
    using t by (rule is_full_never_at_255)
  have w: "lf256fifo_write ?s 0x42 = (0, ?s\<lparr>data := (data ?s)(255 := 0x42), fempty := 0\<rparr>)"
    using nf t by (simp add: lf256fifo_write_def)
  show ?thesis
    using r h t nf by (simp add: w is_empty_iff)
qed

text \<open>
  In particular, from an empty queue, \<^verbatim>\<open>ffilled\<close> = \<^verbatim>\<open>fempty\<close> at any index value, up to
  255 bytes are all accepted and are read back in the order in which they were written,
  also when the writes run across the wraparound of the index.
\<close>

lemma fifo_order_from_empty:
  assumes "lf256fifo_is_empty s" and "length bs \<le> 255"
  shows "fst (lf256fifo_writes s bs) = replicate (length bs) 0 \<and>
         fst (lf256fifo_reads (length bs) (snd (lf256fifo_writes s bs)) c) =
           map (\<lambda>b. (0, b)) bs"
proof -
  have e: "pending s = []" using assms(1) by (rule pending_empty)
  with assms(2) have "length (pending s) + length bs \<le> 255" by simp
  from fifo_order_after_pending [OF this, of c] e show ?thesis by simp
qed

text \<open>Reads from a queue that tests as empty all return -1 and change nothing.\<close>

lemma reads_empty:
  assumes "lf256fifo_is_empty s"
  shows "lf256fifo_reads n s c = (replicate n (- 1, c), s)"
  using assms by (induction n) (simp_all add: lf256fifo_read_def)

text \<open>The queue after 255 writes to the fresh queue of \<^verbatim>\<open>lf256fifo_init\<close>.\<close>

lemma after_255_writes:
  "ffilled (snd (lf256fifo_writes lf256fifo_zeroed (replicate 255 b))) = 0 \<and>
   fempty (snd (lf256fifo_writes lf256fifo_zeroed (replicate 255 b))) = 255 \<and>
   pending (snd (lf256fifo_writes lf256fifo_zeroed (replicate 255 b))) = replicate 255 b"
proof -
  have e: "pending lf256fifo_zeroed = []"
    by (simp add: pending_def lf256fifo_zeroed_def)
  then have "length (pending lf256fifo_zeroed) + length (replicate 255 b) \<le> 255"
    by simp
  from writes_pending [OF this] e show ?thesis
    by (simp add: lf256fifo_zeroed_def)
qed

text \<open>
  Claim C3. The claim: from any reachable queue state, bytes accepted by write are
  returned by the reads that follow, in the order written. The code evaluated at the
  state reached by 255 writes of 0x41 to the fresh queue, which holds 255 unread bytes
  (\<^verbatim>\<open>ffilled\<close> = 0, \<^verbatim>\<open>fempty\<close> = 255): the write of 0x42 is accepted (it returns 0) and
  leaves a queue that tests as empty, so the read that follows returns -1 and leaves the
  caller's byte alone, and so does every one of 256 reads: neither the accepted byte
  0x42 nor any of the bytes accepted before it is ever returned.
\<close>

theorem fifo_order_lost_at_wraparound:
  "pending (snd (lf256fifo_writes lf256fifo_zeroed (replicate 255 0x41))) = replicate 255 0x41 \<and>
   fst (lf256fifo_writes
          (snd (lf256fifo_writes lf256fifo_zeroed (replicate 255 0x41))) [0x42]) = [0] \<and>
   fst (lf256fifo_reads 1 (snd (lf256fifo_writes
          (snd (lf256fifo_writes lf256fifo_zeroed (replicate 255 0x41))) [0x42])) 0) =
     [(- 1, 0)] \<and>
   fst (lf256fifo_reads 256 (snd (lf256fifo_writes
          (snd (lf256fifo_writes lf256fifo_zeroed (replicate 255 0x41))) [0x42])) 0) =
     replicate 256 (- 1, 0)"
proof -
  let ?s = "snd (lf256fifo_writes lf256fifo_zeroed (replicate 255 0x41))"
  let ?g = "?s\<lparr>data := (data ?s)(255 := 0x42), fempty := 0\<rparr>"
  from after_255_writes [of "0x41"]
  have h: "ffilled ?s = 0" and t: "fempty ?s = 255"
    and p: "pending ?s = replicate 255 0x41" by simp_all
  have nf: "\<not> lf256fifo_is_full ?s"
    using t by (rule is_full_never_at_255)
  have w: "lf256fifo_write ?s 0x42 = (0, ?g)"
    using nf t by (simp add: lf256fifo_write_def)
  have ws: "lf256fifo_writes ?s [0x42] = ([0], ?g)"
    by (simp add: w)
  have e: "lf256fifo_is_empty ?g"
    using h by (simp add: is_empty_iff)
  show ?thesis
    using p by (simp only: ws reads_empty [OF e] fst_conv snd_conv) simp
qed

section \<open>Flushing\<close>

text \<open>
  Claim C6. \<^verbatim>\<open>lf256fifo_flush\<close> sets \<^verbatim>\<open>ffilled\<close> to \<^verbatim>\<open>fempty\<close> and changes neither
  \<^verbatim>\<open>fempty\<close> nor the buffer. Right after it the queue tests as empty whatever it held, and
  any number of reads return -1 and leave the queue and the caller's byte alone. The next
  write is accepted, and the read after that write succeeds and delivers the written byte.
\<close>

theorem flush_empties:
  "ffilled (lf256fifo_flush s) = fempty s \<and>
   fempty (lf256fifo_flush s) = fempty s \<and>
   data (lf256fifo_flush s) = data s \<and>
   lf256fifo_is_empty (lf256fifo_flush s) \<and>
   lf256fifo_reads n (lf256fifo_flush s) c = (replicate n (- 1, c), lf256fifo_flush s) \<and>
   fst (lf256fifo_write (lf256fifo_flush s) b) = 0 \<and>
   fst (lf256fifo_read (snd (lf256fifo_write (lf256fifo_flush s) b)) c) = 0 \<and>
   snd (snd (lf256fifo_read (snd (lf256fifo_write (lf256fifo_flush s) b)) c)) = b"
proof -
  let ?f = "s\<lparr>ffilled := fempty s\<rparr>"
  let ?g = "s\<lparr>ffilled := fempty s, data := (data s)(fempty s := b), fempty := fempty s + 1\<rparr>"
  have f: "lf256fifo_flush s = ?f"
    by (simp add: lf256fifo_flush_def)
  have e: "lf256fifo_is_empty ?f"
    by (simp add: is_empty_iff)
  have nf: "\<not> lf256fifo_is_full ?f"
    by (simp add: lf256fifo_is_full_def)
  have w: "lf256fifo_write ?f b = (0, ?g)"
    using nf by (simp add: lf256fifo_write_def)
  have ne: "\<not> lf256fifo_is_empty ?g"
    by (simp add: is_empty_iff)
  have r: "lf256fifo_read ?g c = (0, ?g\<lparr>ffilled := fempty s + 1\<rparr>, b)"
    using ne by (simp add: lf256fifo_read_def)
  show ?thesis
    using e by (simp add: f reads_empty [OF e] w r)
qed

theorem flush_empties_witness:
  "ffilled (lf256fifo_flush \<lparr>data = (\<lambda>_. 7), ffilled = 250, fempty = 3\<rparr>) = 3 \<and>
   fempty (lf256fifo_flush \<lparr>data = (\<lambda>_. 7), ffilled = 250, fempty = 3\<rparr>) = 3 \<and>
   data (lf256fifo_flush \<lparr>data = (\<lambda>_. 7), ffilled = 250, fempty = 3\<rparr>) = (\<lambda>_. 7) \<and>
   lf256fifo_is_empty (lf256fifo_flush \<lparr>data = (\<lambda>_. 7), ffilled = 250, fempty = 3\<rparr>) \<and>
   fst (lf256fifo_reads 2 (lf256fifo_flush \<lparr>data = (\<lambda>_. 7), ffilled = 250, fempty = 3\<rparr>) 9) =
     [(- 1, 9), (- 1, 9)] \<and>
   fst (lf256fifo_write (lf256fifo_flush \<lparr>data = (\<lambda>_. 7), ffilled = 250, fempty = 3\<rparr>) 5) = 0 \<and>
   snd (snd (lf256fifo_read (snd (lf256fifo_write
     (lf256fifo_flush \<lparr>data = (\<lambda>_. 7), ffilled = 250, fempty = 3\<rparr>) 5)) 9)) = 5"
  using flush_empties [of "\<lparr>data = (\<lambda>_. 7), ffilled = 250, fempty = 3\<rparr>" 2 9 5]
  by (simp add: numeral_2_eq_2)

end
